theory Spec2Isabelle
  imports Complex_Main
begin

section \<open>JavaScript values\<close>

text \<open>
  The server keeps its cache in JavaScript objects whose fields are loosely typed, and
  every decision it takes goes through a coercion (\<^verbatim>\<open>Number\<close>, \<^verbatim>\<open>String\<close>,
  \<^verbatim>\<open>BigInt\<close>, \<^verbatim>\<open>Boolean\<close>). The values are therefore modelled as they are at
  run time.

  A Number is \<open>NaN\<close>, an infinity or a finite value. Finite values are rationals (every
  finite double is one); \<open>-0\<close> is identified with \<open>0\<close>, which no comparison of the
  server tells apart. Arithmetic on finite values and the conversion of a BigInt or a
  decimal numeral to a Number are exact, which is what doubles do as long as the values
  are integers below \<open>2 ^ 53\<close>: ledger sequences, pool ids and Unix timestamps are.
\<close>

datatype jsnum = NaN | PInf | NInf | Fin rat

datatype jsval =
    Undef
  | Null
  | Bool bool
  | Num jsnum
  | Big int
  | Str string
  | Arr "jsval list"
  | Obj "(string \<times> jsval) list"

text \<open>The relational operators of JavaScript on Numbers: every comparison with NaN is false.\<close>

fun js_lt :: "jsnum \<Rightarrow> jsnum \<Rightarrow> bool" where
  "js_lt NaN _ = False"
| "js_lt _ NaN = False"
| "js_lt PInf _ = False"
| "js_lt _ PInf = True"
| "js_lt _ NInf = False"
| "js_lt NInf _ = True"
| "js_lt (Fin a) (Fin b) = (a < b)"

definition js_gt :: "jsnum \<Rightarrow> jsnum \<Rightarrow> bool" where
  "js_gt a b = js_lt b a"

text \<open>\<^verbatim>\<open>Math.max(a, b)\<close>: NaN when either argument is NaN.\<close>

fun Math_max :: "jsnum \<Rightarrow> jsnum \<Rightarrow> jsnum" where
  "Math_max NaN _ = NaN"
| "Math_max _ NaN = NaN"
| "Math_max a b = (if js_lt a b then b else a)"

text \<open>\<^verbatim>\<open>a - b\<close> on Numbers.\<close>

fun js_sub :: "jsnum \<Rightarrow> jsnum \<Rightarrow> jsnum" where
  "js_sub NaN _ = NaN"
| "js_sub _ NaN = NaN"
| "js_sub PInf PInf = NaN"
| "js_sub NInf NInf = NaN"
| "js_sub PInf _ = PInf"
| "js_sub NInf _ = NInf"
| "js_sub _ PInf = NInf"
| "js_sub _ NInf = PInf"
| "js_sub (Fin a) (Fin b) = Fin (a - b)"

definition Number_isFinite :: "jsnum \<Rightarrow> bool" where
  "Number_isFinite n = (case n of Fin _ \<Rightarrow> True | _ \<Rightarrow> False)"

text \<open>Truthiness of a Number: \<open>0\<close> and NaN are falsy.\<close>

definition num_truthy :: "jsnum \<Rightarrow> bool" where
  "num_truthy n = (case n of NaN \<Rightarrow> False | Fin r \<Rightarrow> r \<noteq> 0 | _ \<Rightarrow> True)"

text \<open>\<^verbatim>\<open>Boolean(v)\<close>, the truthiness of any value.\<close>

definition truthy :: "jsval \<Rightarrow> bool" where
  "truthy v = (case v of
      Undef \<Rightarrow> False | Null \<Rightarrow> False | Bool b \<Rightarrow> b | Num n \<Rightarrow> num_truthy n
    | Big i \<Rightarrow> i \<noteq> 0 | Str s \<Rightarrow> s \<noteq> [] | Arr _ \<Rightarrow> True | Obj _ \<Rightarrow> True)"

text \<open>\<^verbatim>\<open>v == null\<close> (null or undefined), the test behind \<^verbatim>\<open>??\<close> and \<^verbatim>\<open>!= null\<close>.\<close>

definition nullish :: "jsval \<Rightarrow> bool" where
  "nullish v = (v = Undef \<or> v = Null)"

text \<open>\<^verbatim>\<open>a ?? b\<close> and \<^verbatim>\<open>a || b\<close>.\<close>

definition nullish_or :: "jsval \<Rightarrow> jsval \<Rightarrow> jsval" where
  "nullish_or a b = (if nullish a then b else a)"

definition js_or :: "jsval \<Rightarrow> jsval \<Rightarrow> jsval" where
  "js_or a b = (if truthy a then a else b)"

text \<open>
  Property read \<^verbatim>\<open>v[k]\<close> (and \<^verbatim>\<open>v?.k\<close>) for the field names the server uses. An
  object is the list of its own properties in insertion order; none of the names the
  server reads is a property of a string, a number, a boolean or an array, and
  \<^verbatim>\<open>?.\<close> gives undefined on null and undefined.
\<close>

definition getField :: "jsval \<Rightarrow> string \<Rightarrow> jsval" where
  "getField v k = (case v of
      Obj kvs \<Rightarrow> (case map_of kvs k of Some x \<Rightarrow> x | None \<Rightarrow> Undef)
    | _ \<Rightarrow> Undef)"

text \<open>Property write \<^verbatim>\<open>o.k = x\<close> on a property list: in place, or appended when new.\<close>

fun setProp :: "(string \<times> 'v) list \<Rightarrow> string \<Rightarrow> 'v \<Rightarrow> (string \<times> 'v) list" where
  "setProp [] k x = [(k, x)]"
| "setProp ((k', y) # kvs) k x = (if k' = k then (k, x) # kvs else (k', y) # setProp kvs k x)"

text \<open>Assignment \<^verbatim>\<open>p.k = x\<close>: on an object it writes the property; on a primitive it
  does nothing (the file is not in strict mode).\<close>

definition setField :: "jsval \<Rightarrow> string \<Rightarrow> jsval \<Rightarrow> jsval" where
  "setField p k x = (case p of Obj kvs \<Rightarrow> Obj (setProp kvs k x) | _ \<Rightarrow> p)"

text \<open>\<^verbatim>\<open>typeof v === 'object' && v\<close>: objects and arrays.\<close>

definition is_object :: "jsval \<Rightarrow> bool" where
  "is_object v = (case v of Arr _ \<Rightarrow> True | Obj _ \<Rightarrow> True | _ \<Rightarrow> False)"

section \<open>Decimal numerals\<close>

definition decimal_digits :: "(nat \<times> char) list" where
  "decimal_digits =
     [(0, CHR ''0''), (1, CHR ''1''), (2, CHR ''2''), (3, CHR ''3''), (4, CHR ''4''),
      (5, CHR ''5''), (6, CHR ''6''), (7, CHR ''7''), (8, CHR ''8''), (9, CHR ''9'')]"

definition digit_char :: "nat \<Rightarrow> char" where
  "digit_char d = (case map_of decimal_digits d of Some c \<Rightarrow> c | None \<Rightarrow> CHR ''?'')"

definition digit_val :: "char \<Rightarrow> nat option" where
  "digit_val c = map_of (map (\<lambda>(d, c). (c, d)) decimal_digits) c"

text \<open>The regular expression class \<^verbatim>\<open>\d\<close>.\<close>

definition is_digit :: "char \<Rightarrow> bool" where
  "is_digit c = (digit_val c \<noteq> None)"

text \<open>The value of a digit string, most significant digit first.\<close>

definition digits_val :: "string \<Rightarrow> nat" where
  "digits_val s = foldl (\<lambda>a c. 10 * a + (case digit_val c of Some d \<Rightarrow> d | None \<Rightarrow> 0)) 0 s"

text \<open>The decimal numeral of a natural number and of an integer, as \<^verbatim>\<open>toString\<close> prints a BigInt.\<close>

function show_nat :: "nat \<Rightarrow> string" where
  "show_nat n = (if n < 10 then [digit_char n] else show_nat (n div 10) @ [digit_char (n mod 10)])"
  by pat_completeness auto
termination
  by (relation "measure id") auto

declare show_nat.simps [simp del]

definition show_int :: "int \<Rightarrow> string" where
  "show_int i = (if i < 0 then CHR ''-'' # show_nat (nat (- i)) else show_nat (nat i))"


section \<open>Coercions\<close>

text \<open>
  Strings are lists of 8-bit characters; the model covers ASCII text. The conversions
  between Numbers and strings are written out for integers in decimal notation. What the
  language does outside that fragment (fractions, exponents, hexadecimal literals,
  surrounding white space, the exponent notation of large magnitudes) is left open as a
  parameter \<open>H\<close>, so that every theorem holds whatever the language does there.
\<close>

record host =
  StringToNumber :: "string \<Rightarrow> jsnum"
  NumberToString :: "rat \<Rightarrow> string"

definition is_integral :: "rat \<Rightarrow> bool" where
  "is_integral r = (of_int \<lfloor>r\<rfloor> = r)"

text \<open>An optionally signed decimal integer literal.\<close>

definition signed_dec :: "string \<Rightarrow> int option" where
  "signed_dec s =
     (case s of
        [] \<Rightarrow> None
      | c # ds \<Rightarrow>
          if c = CHR ''-'' \<or> c = CHR ''+'' then
            (if ds \<noteq> [] \<and> list_all is_digit ds
             then Some (if c = CHR ''-'' then - int (digits_val ds) else int (digits_val ds))
             else None)
          else if list_all is_digit s then Some (int (digits_val s)) else None)"

text \<open>\<^verbatim>\<open>Number(s)\<close> for a string: the empty string is \<open>0\<close>.\<close>

definition Number_str :: "host \<Rightarrow> string \<Rightarrow> jsnum" where
  "Number_str H s =
     (if s = [] then Fin 0
      else case signed_dec s of Some i \<Rightarrow> Fin (of_int i) | None \<Rightarrow> StringToNumber H s)"

text \<open>\<^verbatim>\<open>String(n)\<close> for a Number.\<close>

definition String_num :: "host \<Rightarrow> jsnum \<Rightarrow> string" where
  "String_num H n =
     (case n of
        NaN \<Rightarrow> ''NaN''
      | PInf \<Rightarrow> ''Infinity''
      | NInf \<Rightarrow> ''-Infinity''
      | Fin r \<Rightarrow>
          if is_integral r \<and> \<bar>r\<bar> < 10 ^ 21 then show_int \<lfloor>r\<rfloor> else NumberToString H r)"

text \<open>\<^verbatim>\<open>Array.prototype.join(',')\<close> on strings.\<close>

fun join_comma :: "string list \<Rightarrow> string" where
  "join_comma [] = []"
| "join_comma [s] = s"
| "join_comma (s # t # ss) = s @ CHR '','' # join_comma (t # ss)"

text \<open>
  \<^verbatim>\<open>String(v)\<close>. An array prints its elements joined by commas, null and undefined
  elements as the empty string; a plain object prints as \<^verbatim>\<open>[object Object]\<close>.
\<close>

fun String_of :: "host \<Rightarrow> jsval \<Rightarrow> string" where
  "String_of H Undef = ''undefined''"
| "String_of H Null = ''null''"
| "String_of H (Bool b) = (if b then ''true'' else ''false'')"
| "String_of H (Num n) = String_num H n"
| "String_of H (Big i) = show_int i"
| "String_of H (Str s) = s"
| "String_of H (Arr xs) =
     join_comma (map (\<lambda>x. if x = Undef \<or> x = Null then [] else String_of H x) xs)"
| "String_of H (Obj kvs) = ''[object Object]''"

text \<open>\<^verbatim>\<open>Number(v)\<close>. Objects and arrays go through their string form.\<close>

definition Number_of :: "host \<Rightarrow> jsval \<Rightarrow> jsnum" where
  "Number_of H v =
     (case v of
        Undef \<Rightarrow> NaN
      | Null \<Rightarrow> Fin 0
      | Bool b \<Rightarrow> Fin (if b then 1 else 0)
      | Num n \<Rightarrow> n
      | Big i \<Rightarrow> Fin (of_int i)
      | Str s \<Rightarrow> Number_str H s
      | Arr xs \<Rightarrow> Number_str H (String_of H v)
      | Obj kvs \<Rightarrow> Number_str H (String_of H v))"

datatype js_error = TypeError | RangeError | SyntaxError

text \<open>
  \<^verbatim>\<open>BigInt(s)\<close> for a string: white space is trimmed, the empty string is \<open>0n\<close>, then an
  optionally signed decimal literal or an unsigned hexadecimal, octal or binary literal;
  anything else throws a SyntaxError.
\<close>

definition is_ws :: "char \<Rightarrow> bool" where
  "is_ws c = (c = CHR '' '' \<or> c = CHR 0x09 \<or> c = CHR 0x0A \<or> c = CHR 0x0B \<or> c = CHR 0x0C
     \<or> c = CHR 0x0D)"

definition trim :: "string \<Rightarrow> string" where
  "trim s = rev (dropWhile is_ws (rev (dropWhile is_ws s)))"

definition hex_val :: "char \<Rightarrow> nat option" where
  "hex_val c =
     (case digit_val c of
        Some d \<Rightarrow> Some d
      | None \<Rightarrow>
          if c = CHR ''a'' \<or> c = CHR ''A'' then Some 10
          else if c = CHR ''b'' \<or> c = CHR ''B'' then Some 11
          else if c = CHR ''c'' \<or> c = CHR ''C'' then Some 12
          else if c = CHR ''d'' \<or> c = CHR ''D'' then Some 13
          else if c = CHR ''e'' \<or> c = CHR ''E'' then Some 14
          else if c = CHR ''f'' \<or> c = CHR ''F'' then Some 15
          else None)"

definition radix_val :: "nat \<Rightarrow> string \<Rightarrow> nat option" where
  "radix_val b s =
     (if s \<noteq> [] \<and> list_all (\<lambda>c. case hex_val c of Some d \<Rightarrow> d < b | None \<Rightarrow> False) s
      then Some (foldl (\<lambda>a c. b * a + (case hex_val c of Some d \<Rightarrow> d | None \<Rightarrow> 0)) 0 s)
      else None)"

definition prefixed :: "string \<Rightarrow> (nat \<times> string) option" where
  "prefixed s =
     (case s of
        c # x # ds \<Rightarrow>
          if c = CHR ''0'' \<and> (x = CHR ''x'' \<or> x = CHR ''X'') then Some (16, ds)
          else if c = CHR ''0'' \<and> (x = CHR ''o'' \<or> x = CHR ''O'') then Some (8, ds)
          else if c = CHR ''0'' \<and> (x = CHR ''b'' \<or> x = CHR ''B'') then Some (2, ds)
          else None
      | _ \<Rightarrow> None)"

definition BigInt_str :: "string \<Rightarrow> js_error + int" where
  "BigInt_str s =
     (let t = trim s in
      if t = [] then Inr 0
      else case prefixed t of
        Some (b, ds) \<Rightarrow>
          (case radix_val b ds of Some n \<Rightarrow> Inr (int n) | None \<Rightarrow> Inl SyntaxError)
      | None \<Rightarrow> (case signed_dec t of Some i \<Rightarrow> Inr i | None \<Rightarrow> Inl SyntaxError))"

text \<open>
  \<^verbatim>\<open>BigInt(v)\<close>: a TypeError on null and undefined, a RangeError on a Number that is
  not an integer, a SyntaxError on a string that is not an integer literal.
\<close>

definition BigInt_of :: "host \<Rightarrow> jsval \<Rightarrow> js_error + int" where
  "BigInt_of H v =
     (case v of
        Undef \<Rightarrow> Inl TypeError
      | Null \<Rightarrow> Inl TypeError
      | Bool b \<Rightarrow> Inr (if b then 1 else 0)
      | Num n \<Rightarrow>
          (case n of
             Fin r \<Rightarrow> if is_integral r then Inr \<lfloor>r\<rfloor> else Inl RangeError
           | _ \<Rightarrow> Inl RangeError)
      | Big i \<Rightarrow> Inr i
      | Str s \<Rightarrow> BigInt_str s
      | Arr xs \<Rightarrow> BigInt_str (String_of H v)
      | Obj kvs \<Rightarrow> BigInt_str (String_of H v))"


section \<open>Decoding helpers of the server\<close>

text \<open>
  A raw topic is an XDR value or its base64 text, decoded by the SDK. The SDK is not part
  of the repository: a topic is modelled by what \<^verbatim>\<open>scvToNativeSafe\<close> returns for it,
  \<open>Some v\<close> for a truthy raw entry that decodes to \<open>v\<close> (\<open>Null\<close> when decoding fails) and
  \<open>None\<close> for a falsy raw entry, which always decodes to null.
\<close>

type_synonym topic = "jsval option"

definition decoded :: "topic \<Rightarrow> jsval" where
  "decoded t = (case t of Some v \<Rightarrow> v | None \<Rightarrow> Null)"

definition topicSym :: "host \<Rightarrow> topic \<Rightarrow> jsval" where
  "topicSym H t =
     (let v = decoded t in
      case v of
        Str s \<Rightarrow> Str s
      | _ \<Rightarrow> if truthy v \<and> truthy (getField v ''sym'') then getField v ''sym''
             else Str (String_of H v))"

definition topicNum :: "host \<Rightarrow> topic \<Rightarrow> jsnum option" where
  "topicNum H t = (let n = Number_of H (decoded t) in if Number_isFinite n then Some n else None)"

text \<open>The regular expression \<^verbatim>\<open>/^-?\d+$/\<close>.\<close>

definition re_int :: "string \<Rightarrow> bool" where
  "re_int s =
     (case s of
        [] \<Rightarrow> False
      | c # ds \<Rightarrow> if c = CHR ''-'' then ds \<noteq> [] \<and> list_all is_digit ds else list_all is_digit s)"

definition or_zero :: "js_error + int \<Rightarrow> int" where
  "or_zero r = (case r of Inr i \<Rightarrow> i | Inl _ \<Rightarrow> 0)"

definition amount_keys :: "string list" where
  "amount_keys = [''amount'', ''delta'', ''value'', ''raised'', ''contribution'']"

text \<open>\<^verbatim>\<open>extractAmount\<close>: every exception is caught and gives \<open>0n\<close>.\<close>

fun extractAmount :: "host \<Rightarrow> jsval \<Rightarrow> int"
  and extractAmountList :: "host \<Rightarrow> jsval list \<Rightarrow> int" where
  "extractAmount H (Big i) = i"
| "extractAmount H (Num n) = or_zero (BigInt_of H (Num n))"
| "extractAmount H (Str s) = (if re_int s then or_zero (BigInt_str s) else 0)"
| "extractAmount H (Obj kvs) =
     (case find (\<lambda>k. \<not> nullish (getField (Obj kvs) k)) amount_keys of
        Some k \<Rightarrow> or_zero (BigInt_of H (getField (Obj kvs) k))
      | None \<Rightarrow> 0)"
| "extractAmount H (Arr xs) = extractAmountList H xs"
| "extractAmount H Undef = 0"
| "extractAmount H Null = 0"
| "extractAmount H (Bool b) = 0"
| "extractAmountList H [] = 0"
| "extractAmountList H (x # xs) =
     (let v = extractAmount H x in if v \<noteq> 0 then v else extractAmountList H xs)"

definition id_keys :: "string list" where
  "id_keys = [''id'', ''pool'', ''pool_id'', ''poolId'']"

text \<open>\<^verbatim>\<open>Number.isFinite(n) && n > 0\<close>.\<close>

definition finite_pos :: "jsnum \<Rightarrow> bool" where
  "finite_pos n = (Number_isFinite n \<and> js_gt n (Fin 0))"

fun scan_ids :: "host \<Rightarrow> jsval \<Rightarrow> string list \<Rightarrow> jsnum option" where
  "scan_ids H payload [] = None"
| "scan_ids H payload (k # ks) =
     (let n = Number_of H (getField payload k) in if finite_pos n then Some n else scan_ids H payload ks)"

definition topic_id :: "host \<Rightarrow> topic \<Rightarrow> jsnum option" where
  "topic_id H t = (case topicNum H t of Some n \<Rightarrow> if finite_pos n then Some n else None | None \<Rightarrow> None)"

fun scan_topics :: "host \<Rightarrow> topic list \<Rightarrow> jsnum option" where
  "scan_topics H [] = None"
| "scan_topics H (t # ts) = (case topic_id H t of Some n \<Rightarrow> Some n | None \<Rightarrow> scan_topics H ts)"

text \<open>\<^verbatim>\<open>topics[1]\<close>, \<open>None\<close> when the entry is missing or falsy.\<close>

definition topic_at1 :: "topic list \<Rightarrow> topic" where
  "topic_at1 ts = (case ts of _ # t # _ \<Rightarrow> t | _ \<Rightarrow> None)"

text \<open>\<^verbatim>\<open>extractPoolId\<close>; \<open>None\<close> is the \<^verbatim>\<open>null\<close> it returns.\<close>

definition extractPoolId :: "host \<Rightarrow> jsval \<Rightarrow> topic list \<Rightarrow> jsnum option" where
  "extractPoolId H payload ts =
     (case (if is_object payload then scan_ids H payload id_keys else None) of
        Some n \<Rightarrow> Some n
      | None \<Rightarrow>
          (case (if topic_at1 ts \<noteq> None then topic_id H (topic_at1 ts) else None) of
             Some n \<Rightarrow> Some n
           | None \<Rightarrow> scan_topics H ts))"


section \<open>Event tags\<close>

text \<open>\<^verbatim>\<open>toLowerCase\<close> and case-insensitive matching, on ASCII letters.\<close>

definition lower_char :: "char \<Rightarrow> char" where
  "lower_char c =
     (case map_of (zip ''ABCDEFGHIJKLMNOPQRSTUVWXYZ'' ''abcdefghijklmnopqrstuvwxyz'') c of
        Some l \<Rightarrow> l
      | None \<Rightarrow> c)"

definition toLowerCase :: "string \<Rightarrow> string" where
  "toLowerCase s = map lower_char s"

fun starts_with_ci :: "string \<Rightarrow> string \<Rightarrow> bool" where
  "starts_with_ci s [] = True"
| "starts_with_ci [] (p # ps) = False"
| "starts_with_ci (c # s) (p # ps) = (lower_char c = lower_char p \<and> starts_with_ci s ps)"

text \<open>An unanchored literal pattern with the flag \<^verbatim>\<open>i\<close>: the literal occurs somewhere.\<close>

fun includes_ci :: "string \<Rightarrow> string \<Rightarrow> bool" where
  "includes_ci [] pat = starts_with_ci [] pat"
| "includes_ci (c # s) pat = (starts_with_ci (c # s) pat \<or> includes_ci s pat)"

text \<open>\<^verbatim>\<open>.*\<close> followed by a literal: the dot matches any character but a line terminator.\<close>

fun dot_star_then :: "string \<Rightarrow> string \<Rightarrow> bool" where
  "dot_star_then [] pat = starts_with_ci [] pat"
| "dot_star_then (c # s) pat =
     (starts_with_ci (c # s) pat \<or> (c \<noteq> CHR 0x0A \<and> c \<noteq> CHR 0x0D \<and> dot_star_then s pat))"

text \<open>\<^verbatim>\<open>/pool.*created/i\<close>.\<close>

fun re_pool_created :: "string \<Rightarrow> bool" where
  "re_pool_created [] = False"
| "re_pool_created (c # s) =
     ((starts_with_ci (c # s) ''pool'' \<and> dot_star_then (drop 4 (c # s)) ''created'')
      \<or> re_pool_created s)"

definition is_created_tag :: "string \<Rightarrow> bool" where
  "is_created_tag t =
     (t = ''pc'' \<or> re_pool_created t \<or> includes_ci t ''created'' \<or> includes_ci t ''create_pool'')"

definition is_contributed_tag :: "string \<Rightarrow> bool" where
  "is_contributed_tag t = (t = ''ctr'' \<or> includes_ci t ''contribut'' \<or> includes_ci t ''contribute'')"

definition is_finalized_tag :: "string \<Rightarrow> bool" where
  "is_finalized_tag t = (t = ''fn'' \<or> includes_ci t ''finaliz'')"

section \<open>The cache and the reconciler\<close>

text \<open>
  The snapshot file holds JSON text. The text itself is not modelled: the file is absent,
  or unparsable, or holds a document, which is the value \<^verbatim>\<open>JSON.parse\<close> returns for it.
\<close>

datatype snapshot_file = Absent | Corrupt | Doc jsval

text \<open>
  The module-level variables. \<open>pools\<close> and \<open>pendingRaised\<close> are \<^verbatim>\<open>Map\<close>s keyed by
  strings; \<open>pools\<close> keeps its insertion order, which the snapshot writes out.
\<close>

record state =
  pools :: "(string \<times> jsval) list"
  lastScannedLedger :: jsnum
  pendingRaised :: "string \<rightharpoonup> int"
  stateFile :: snapshot_file

text \<open>
  An event as the RPC client delivers it: \<open>payload\<close> is what \<^verbatim>\<open>scvToNativeSafe\<close> returns
  for its value (\<open>Null\<close> when decoding fails), and the two ledger fields are Numbers or
  missing.
\<close>

record event =
  payload :: jsval
  topics :: "topic list"
  ledger :: "jsnum option"
  ledgerSequence :: "jsnum option"

text \<open>\<^verbatim>\<open>e.ledger ?? e.ledgerSequence ?? 0\<close>.\<close>

definition event_ledger :: "event \<Rightarrow> jsnum" where
  "event_ledger e =
     (case ledger e of
        Some n \<Rightarrow> n
      | None \<Rightarrow> (case ledgerSequence e of Some n \<Rightarrow> n | None \<Rightarrow> Fin 0))"

text \<open>The own enumerable properties that \<^verbatim>\<open>{...v}\<close> copies.\<close>

definition spread_props :: "jsval \<Rightarrow> (string \<times> jsval) list" where
  "spread_props v =
     (case v of
        Obj kvs \<Rightarrow> kvs
      | Arr xs \<Rightarrow> zip (map show_nat [0..<length xs]) xs
      | Str s \<Rightarrow> zip (map show_nat [0..<length s]) (map (\<lambda>c. Str [c]) s)
      | _ \<Rightarrow> [])"

fun setProps :: "(string \<times> 'v) list \<Rightarrow> (string \<times> 'v) list \<Rightarrow> (string \<times> 'v) list" where
  "setProps kvs [] = kvs"
| "setProps kvs ((k, x) # rest) = setProps (setProp kvs k x) rest"

text \<open>The object literal of the creation branch.\<close>

definition created_obj :: "host \<Rightarrow> jsval \<Rightarrow> jsnum \<Rightarrow> jsval" where
  "created_obj H nv pid =
     Obj (setProps (spread_props (if is_object nv then nv else Obj []))
       [(''id'', Num pid),
        (''goal'', Str (String_of H
            (nullish_or (getField nv ''goal'') (nullish_or (getField nv ''target'') (Num (Fin 0)))))),
        (''raised'', Str (String_of H (nullish_or (getField nv ''raised'') (Num (Fin 0))))),
        (''deadline'', Num (Number_of H (nullish_or (getField nv ''deadline'') (Num (Fin 0))))),
        (''finalized'', Bool (truthy (getField nv ''finalized'')))])"

text \<open>\<^verbatim>\<open>BigInt(p.raised ?? '0')\<close>.\<close>

definition raised_of :: "host \<Rightarrow> jsval \<Rightarrow> js_error + int" where
  "raised_of H p = BigInt_of H (nullish_or (getField p ''raised'') (Str ''0''))"

definition on_created :: "host \<Rightarrow> state \<Rightarrow> jsval \<Rightarrow> jsnum \<Rightarrow> string \<Rightarrow> js_error + state" where
  "on_created H st nv pid key =
     (let obj = created_obj H nv pid in
      case pendingRaised st key of
        Some buff \<Rightarrow>
          if buff \<noteq> 0 then
            (case raised_of H obj of
               Inl err \<Rightarrow> Inl err
             | Inr r \<Rightarrow>
                 Inr (st\<lparr>pools := setProp (pools st) key
                            (setField obj ''raised'' (Str (show_int (r + buff)))),
                         pendingRaised := (pendingRaised st)(key := None)\<rparr>))
          else Inr (st\<lparr>pools := setProp (pools st) key obj\<rparr>)
      | None \<Rightarrow> Inr (st\<lparr>pools := setProp (pools st) key obj\<rparr>))"

text \<open>\<^verbatim>\<open>pools.get(key)\<close>, undefined when the key is missing.\<close>

definition pools_get :: "state \<Rightarrow> string \<Rightarrow> jsval" where
  "pools_get st key = (case map_of (pools st) key of Some p \<Rightarrow> p | None \<Rightarrow> Undef)"

definition on_contributed :: "host \<Rightarrow> state \<Rightarrow> jsval \<Rightarrow> string \<Rightarrow> js_error + state" where
  "on_contributed H st nv key =
     (let p = pools_get st key; delta = extractAmount H nv in
      if truthy p then
        (case raised_of H p of
           Inl err \<Rightarrow> Inl err
         | Inr prev \<Rightarrow>
             Inr (st\<lparr>pools := setProp (pools st) key
                        (setField p ''raised'' (Str (show_int (prev + delta))))\<rparr>))
      else
        (let cur = (case pendingRaised st key of Some b \<Rightarrow> b | None \<Rightarrow> 0) in
         Inr (st\<lparr>pendingRaised := (pendingRaised st)(key \<mapsto> cur + delta)\<rparr>)))"

definition on_finalized :: "state \<Rightarrow> string \<Rightarrow> state" where
  "on_finalized st key =
     (let p = pools_get st key in
      if truthy p then st\<lparr>pools := setProp (pools st) key (setField p ''finalized'' (Bool True))\<rparr>
      else st)"

definition empty_pool :: "jsnum \<Rightarrow> jsval" where
  "empty_pool pid =
     Obj [(''id'', Num pid), (''goal'', Str ''0''), (''raised'', Str ''0''),
          (''deadline'', Num (Fin 0)), (''finalized'', Bool False)]"

text \<open>The generic branch for a tag the server does not know.\<close>

definition on_other :: "host \<Rightarrow> state \<Rightarrow> jsval \<Rightarrow> jsnum \<Rightarrow> string \<Rightarrow> state" where
  "on_other H st nv pid key =
     (let p0 = js_or (pools_get st key) (empty_pool pid);
          p1 = (if is_object nv \<and> \<not> nullish (getField nv ''goal'')
                then setField p0 ''goal'' (Str (String_of H (getField nv ''goal''))) else p0);
          p2 = (if is_object nv \<and> \<not> nullish (getField nv ''raised'')
                then setField p1 ''raised'' (Str (String_of H (getField nv ''raised''))) else p1);
          p3 = (if is_object nv \<and> \<not> nullish (getField nv ''deadline'')
                then setField p2 ''deadline'' (Num (Number_of H (getField nv ''deadline''))) else p2);
          p4 = (if is_object nv \<and> \<not> nullish (getField nv ''finalized'')
                then setField p3 ''finalized'' (Bool (truthy (getField nv ''finalized''))) else p3)
      in st\<lparr>pools := setProp (pools st) key p4\<rparr>)"

definition dispatch :: "host \<Rightarrow> state \<Rightarrow> jsval \<Rightarrow> jsnum \<Rightarrow> string \<Rightarrow> string \<Rightarrow> js_error + state" where
  "dispatch H st nv pid key tagNorm =
     (if is_created_tag tagNorm then on_created H st nv pid key
      else if is_contributed_tag tagNorm then on_contributed H st nv key
      else if is_finalized_tag tagNorm then Inr (on_finalized st key)
      else Inr (on_other H st nv pid key))"

text \<open>
  The tag of an event: \<^verbatim>\<open>topics[0] ? topicSym(topics[0]) : null\<close>.
\<close>

definition event_tag :: "host \<Rightarrow> event \<Rightarrow> jsval" where
  "event_tag H e = (case topics e of Some v # _ \<Rightarrow> topicSym H (Some v) | _ \<Rightarrow> Null)"

text \<open>
  One turn of the loop over the events of a page. \<open>Skip\<close> is the \<^verbatim>\<open>continue\<close> of an
  event without a pool id; \<open>Throw\<close> is an exception that leaves the loop, which
  \<^verbatim>\<open>toLowerCase\<close> raises on a tag that is not a string and \<^verbatim>\<open>BigInt\<close> on a stored
  amount that is not an integer literal.
\<close>

datatype step = is_Skip: Skip | is_Applied: Applied (applied_state: state) | is_Throw: Throw js_error

definition applyEvent :: "host \<Rightarrow> state \<Rightarrow> event \<Rightarrow> step" where
  "applyEvent H st e =
     (let tag = event_tag H e in
      case extractPoolId H (payload e) (topics e) of
        None \<Rightarrow> Skip
      | Some pid \<Rightarrow>
          (let key = String_num H pid in
           case js_or tag (Str []) of
             Str t \<Rightarrow>
               (case dispatch H st (payload e) pid key (toLowerCase t) of
                  Inl err \<Rightarrow> Throw err
                | Inr st' \<Rightarrow>
                    Applied (st'\<lparr>lastScannedLedger :=
                      Math_max (lastScannedLedger st') (event_ledger e)\<rparr>))
           | _ \<Rightarrow> Throw TypeError))"


text \<open>
  The loop over the events of one page, with the counter \<open>processed\<close>. An exception
  leaves the loop with the effects of the earlier events in place.
\<close>

fun apply_events :: "host \<Rightarrow> state \<Rightarrow> nat \<Rightarrow> event list \<Rightarrow> (state \<times> nat) \<times> js_error option" where
  "apply_events H st n [] = ((st, n), None)"
| "apply_events H st n (e # es) =
     (case applyEvent H st e of
        Skip \<Rightarrow> apply_events H st n es
      | Applied st' \<Rightarrow> apply_events H st' (Suc n) es
      | Throw err \<Rightarrow> ((st, n), Some err))"

section \<open>Persistence\<close>

text \<open>
  What \<^verbatim>\<open>JSON.parse(JSON.stringify(v))\<close> gives: a BigInt anywhere makes
  \<^verbatim>\<open>JSON.stringify\<close> throw a TypeError; NaN and the infinities are written as
  \<^verbatim>\<open>null\<close>; an undefined array element is written as \<^verbatim>\<open>null\<close> and a property whose
  value is undefined is left out.
\<close>

fun jsonify :: "jsval \<Rightarrow> js_error + jsval"
  and jsonify_elems :: "jsval list \<Rightarrow> js_error + jsval list"
  and jsonify_props :: "(string \<times> jsval) list \<Rightarrow> js_error + (string \<times> jsval) list" where
  "jsonify Undef = Inr Undef"
| "jsonify Null = Inr Null"
| "jsonify (Bool b) = Inr (Bool b)"
| "jsonify (Num n) = Inr (if Number_isFinite n then Num n else Null)"
| "jsonify (Big i) = Inl TypeError"
| "jsonify (Str s) = Inr (Str s)"
| "jsonify (Arr xs) = (case jsonify_elems xs of Inl err \<Rightarrow> Inl err | Inr ys \<Rightarrow> Inr (Arr ys))"
| "jsonify (Obj kvs) = (case jsonify_props kvs of Inl err \<Rightarrow> Inl err | Inr ps \<Rightarrow> Inr (Obj ps))"
| "jsonify_elems [] = Inr []"
| "jsonify_elems (x # xs) =
     (case jsonify x of
        Inl err \<Rightarrow> Inl err
      | Inr y \<Rightarrow>
          (case jsonify_elems xs of
             Inl err \<Rightarrow> Inl err
           | Inr ys \<Rightarrow> Inr ((if y = Undef then Null else y) # ys)))"
| "jsonify_props [] = Inr []"
| "jsonify_props ((k, x) # kvs) =
     (case jsonify x of
        Inl err \<Rightarrow> Inl err
      | Inr y \<Rightarrow>
          (case jsonify_props kvs of
             Inl err \<Rightarrow> Inl err
           | Inr ps \<Rightarrow> Inr (if y = Undef then ps else (k, y) # ps)))"

text \<open>
  \<^verbatim>\<open>saveState\<close>. The argument is the time stamp \<^verbatim>\<open>new Date().toISOString()\<close>. An
  exception of \<^verbatim>\<open>JSON.stringify\<close> is caught and logged, and the file stays as it was;
  the write itself is taken to succeed.
\<close>

definition saveState :: "string \<Rightarrow> state \<Rightarrow> state" where
  "saveState savedAt st =
     (case jsonify (Obj [(''lastScannedLedger'', Num (lastScannedLedger st)),
                         (''pools'', Arr (map snd (pools st))),
                         (''savedAt'', Str savedAt)]) of
        Inl err \<Rightarrow> st
      | Inr doc \<Rightarrow> st\<lparr>stateFile := Doc doc\<rparr>)"

text \<open>
  The loop \<^verbatim>\<open>for (const p of ...) pools.set(String(p.id), p)\<close>. Reading \<^verbatim>\<open>p.id\<close> of
  null throws; the pools set before stay (\<open>False\<close> in the result says the loop was left by
  the exception).
\<close>

fun load_pools :: "host \<Rightarrow> (string \<times> jsval) list \<Rightarrow> jsval list \<Rightarrow> (string \<times> jsval) list \<times> bool" where
  "load_pools H acc [] = (acc, True)"
| "load_pools H acc (p # ps) =
     (if nullish p then (acc, False)
      else load_pools H (setProp acc (String_of H (getField p ''id'')) p) ps)"

text \<open>
  What \<^verbatim>\<open>for ... of\<close> iterates: the elements of an array, the characters of a string;
  any other value is not iterable and throws.
\<close>

definition iterate :: "jsval \<Rightarrow> jsval list option" where
  "iterate v = (case v of Arr xs \<Rightarrow> Some xs | Str s \<Rightarrow> Some (map (\<lambda>c. Str [c]) s) | _ \<Rightarrow> None)"

text \<open>
  \<^verbatim>\<open>loadState\<close>. Every exception is caught and logged, with the assignments made before
  it in place: \<^verbatim>\<open>pools.clear()\<close> comes before the document is looked at.
\<close>

definition loadState :: "host \<Rightarrow> state \<Rightarrow> state" where
  "loadState H st =
     (case stateFile st of
        Absent \<Rightarrow> st
      | Corrupt \<Rightarrow> st
      | Doc data \<Rightarrow>
          (let st1 = st\<lparr>pools := []\<rparr> in
           if nullish data then st1
           else case iterate (js_or (getField data ''pools'') (Arr [])) of
             None \<Rightarrow> st1
           | Some ps \<Rightarrow>
               (case load_pools H [] ps of
                  (loaded, False) \<Rightarrow> st1\<lparr>pools := loaded\<rparr>
                | (loaded, True) \<Rightarrow>
                    st1\<lparr>pools := loaded,
                        lastScannedLedger :=
                          Math_max (Fin 0)
                            (Number_of H (js_or (getField data ''lastScannedLedger'')
                               (Num (Fin 0))))\<rparr>)))"

text \<open>
  A new process over the files of an old one: the module-level variables have their
  initial values and the snapshot file is as it was left.
\<close>

definition restart :: "state \<Rightarrow> state" where
  "restart st =
     \<lparr>pools = [], lastScannedLedger = Fin 0, pendingRaised = Map.empty, stateFile = stateFile st\<rparr>"

section \<open>The hydration pass\<close>

text \<open>
  The RPC server is the environment of a pass. Its answers are given as a script, one
  answer for each call of \<^verbatim>\<open>getEvents\<close> in the order the calls are made: a rejection
  with the text \<^verbatim>\<open>String(e?.message || e)\<close>, or a page with its events and the token
  \<^verbatim>\<open>ev.paginationToken || ev.cursor || null\<close>. A call made when the script is used up
  is a request that is never answered.
\<close>

datatype response = Rejected string | Page "event list" "string option"

definition DEFAULT_WINDOW :: jsnum where
  "DEFAULT_WINDOW = Fin 150000"

text \<open>\<^verbatim>\<open>clampPos = (x) => Math.max(1, Number(x || 0))\<close> on a Number.\<close>

definition clampPos :: "jsnum \<Rightarrow> jsnum" where
  "clampPos x = Math_max (Fin 1) (if num_truthy x then x else Fin 0)"

text \<open>
  The start of a pass. \<open>fromLedger\<close> is the argument of \<^verbatim>\<open>hydrateFromEvents\<close>, \<open>None\<close>
  when it is called without one; \<open>tip\<close> is \<^verbatim>\<open>latest.sequence\<close>.
\<close>

definition initial_start :: "jsnum option \<Rightarrow> jsnum \<Rightarrow> jsnum \<Rightarrow> jsnum" where
  "initial_start fromLedger cursor tip =
     (if fromLedger = Some (Fin 0) then Fin 1
      else clampPos
        (case fromLedger of
           Some f \<Rightarrow> if num_truthy f then f
                     else if num_truthy cursor then cursor else js_sub tip DEFAULT_WINDOW
         | None \<Rightarrow> if num_truthy cursor then cursor else js_sub tip DEFAULT_WINDOW))"

text \<open>\<^verbatim>\<open>/must be positive/i\<close>.\<close>

definition must_be_positive :: "string \<Rightarrow> bool" where
  "must_be_positive msg = includes_ci msg ''must be positive''"

text \<open>
  \<^verbatim>\<open>/within the ledger range:\s*(\d+)\s*-\s*(\d+)/i\<close>: what follows the literal, and the
  leftmost place where the whole pattern matches. The two groups are read by
  \<^verbatim>\<open>Number\<close>.
\<close>

definition range_tail :: "string \<Rightarrow> (nat \<times> nat) option" where
  "range_tail s =
     (let s1 = dropWhile is_ws s;
          d1 = takeWhile is_digit s1;
          s2 = dropWhile is_ws (dropWhile is_digit s1)
      in case s2 of
           [] \<Rightarrow> None
         | c # s3 \<Rightarrow>
             (let d2 = takeWhile is_digit (dropWhile is_ws s3)
              in if d1 \<noteq> [] \<and> c = CHR ''-'' \<and> d2 \<noteq> []
                 then Some (digits_val d1, digits_val d2) else None))"

fun range_match :: "string \<Rightarrow> (nat \<times> nat) option" where
  "range_match [] = None"
| "range_match (c # s) =
     (case (if starts_with_ci (c # s) ''within the ledger range:''
            then range_tail (drop (length ''within the ledger range:'') (c # s)) else None) of
        Some r \<Rightarrow> Some r
      | None \<Rightarrow> range_match s)"

text \<open>
  The \<^verbatim>\<open>catch\<close> of a rejected fetch (lines 210-236): a new start, with which the code
  says \<^verbatim>\<open>continue retryFetch\<close>, or the \<^verbatim>\<open>break\<close>.
\<close>

datatype verdict = Adjusted jsnum | Give_up

definition negotiate :: "jsnum \<Rightarrow> jsnum \<Rightarrow> string \<Rightarrow> verdict" where
  "negotiate tip start msg =
     (if must_be_positive msg then Adjusted (clampPos (js_sub tip DEFAULT_WINDOW))
      else case range_match msg of
        Some (mn, mx) \<Rightarrow>
          if js_lt start (Fin (of_nat mn)) then Adjusted (Fin (of_nat mn))
          else if js_gt start (Fin (of_nat mx))
            then Adjusted (Math_max (Fin (of_nat mn)) (js_sub (Fin (of_nat mx)) DEFAULT_WINDOW))
          else Give_up
      | None \<Rightarrow> Give_up)"

text \<open>Truthiness of the pagination token: undefined, null and the empty string are falsy.\<close>

definition token_truthy :: "string option \<Rightarrow> bool" where
  "token_truthy t = (case t of Some s \<Rightarrow> s \<noteq> [] | None \<Rightarrow> False)"

text \<open>
  One turn of the body of the \<^verbatim>\<open>do ... while\<close> loop, given the answer to its fetch.
  The locals are \<open>start\<close>, the token and \<open>processed\<close>. The body ends in one of three ways:
  it reaches the loop condition, at its end or by \<^verbatim>\<open>continue retryFetch\<close> (which the
  catch says after it has set the token to undefined); it says \<^verbatim>\<open>break\<close>; or an
  exception leaves it.
\<close>

datatype body_end =
    To_condition jsnum "string option" state nat
  | Break state nat
  | Raise js_error state nat

definition loop_body :: "host \<Rightarrow> jsnum \<Rightarrow> state \<Rightarrow> jsnum \<Rightarrow> nat \<Rightarrow> response \<Rightarrow> body_end" where
  "loop_body H tip st start n r =
     (case r of
        Rejected msg \<Rightarrow>
          (case negotiate tip start msg of
             Adjusted start' \<Rightarrow> To_condition start' None st n
           | Give_up \<Rightarrow> Break st n)
      | Page evs next \<Rightarrow>
          (case apply_events H st n evs of
             ((st', n'), Some err) \<Rightarrow> Raise err st' n'
           | ((st', n'), None) \<Rightarrow> To_condition start next st' n'))"

text \<open>
  The loop. In a \<^verbatim>\<open>do ... while\<close> statement \<^verbatim>\<open>continue\<close> goes to the condition, so
  after every body that does not break or throw the loop goes round again exactly when
  the token is truthy. The last component of the result lists the fetches made, each
  with its start and token.
\<close>

datatype loop_end = Condition_false | Broken | Threw js_error | Unanswered

type_synonym request = "jsnum \<times> string option"

fun page_loop ::
  "host \<Rightarrow> jsnum \<Rightarrow> state \<Rightarrow> jsnum \<Rightarrow> string option \<Rightarrow> nat \<Rightarrow> response list \<Rightarrow> request list
     \<Rightarrow> loop_end \<times> state \<times> nat \<times> request list" where
  "page_loop H tip st start token n [] made = (Unanswered, st, n, made @ [(start, token)])"
| "page_loop H tip st start token n (r # rs) made =
     (case loop_body H tip st start n r of
        To_condition start' token' st' n' \<Rightarrow>
          if token_truthy token' then page_loop H tip st' start' token' n' rs (made @ [(start, token)])
          else (Condition_false, st', n', made @ [(start, token)])
      | Break st' n' \<Rightarrow> (Broken, st', n', made @ [(start, token)])
      | Raise err st' n' \<Rightarrow> (Threw err, st', n', made @ [(start, token)]))"

text \<open>
  How the promise of a pass ends for those who await it. The body of the pass is wrapped
  in \<^verbatim>\<open>try ... catch ... finally\<close>, and the catch only logs.
\<close>

datatype settlement = Fulfilled | Rejects js_error | Never

text \<open>
  A whole pass (lines 186-324). \<open>latest\<close> is the answer of \<^verbatim>\<open>getLatestLedger\<close>, \<open>None\<close>
  when it rejects. The result is the settlement of the promise, the state the pass
  leaves and the fetches it made.
\<close>

definition run_pass ::
  "host \<Rightarrow> string \<Rightarrow> jsnum option \<Rightarrow> state \<Rightarrow> jsnum option \<Rightarrow> response list
     \<Rightarrow> settlement \<times> state \<times> request list" where
  "run_pass H savedAt fromLedger st latest script =
     (case latest of
        None \<Rightarrow> (Fulfilled, st, [])
      | Some tip \<Rightarrow>
          (case page_loop H tip st (initial_start fromLedger (lastScannedLedger st) tip)
                  None 0 script [] of
             (Unanswered, st', n, made) \<Rightarrow> (Never, st', made)
           | (Threw err, st', n, made) \<Rightarrow> (Fulfilled, st', made)
           | (ending, st', n, made) \<Rightarrow>
               (Fulfilled, if 0 < n then saveState savedAt st' else st', made)))"

section \<open>Reading and registering pools\<close>

text \<open>The status of a pool at time \<open>now\<close>, in seconds (lines 363-365).\<close>

definition pool_status :: "host \<Rightarrow> int \<Rightarrow> jsval \<Rightarrow> js_error + string" where
  "pool_status H now p =
     (if truthy (getField p ''finalized'') then Inr ''finalized''
      else if js_gt (Fin (of_int now)) (Number_of H (getField p ''deadline'')) then Inr ''expired''
      else case BigInt_of H (getField p ''raised'') of
        Inl err \<Rightarrow> Inl err
      | Inr r \<Rightarrow>
          (case BigInt_of H (getField p ''goal'') of
             Inl err \<Rightarrow> Inl err
           | Inr g \<Rightarrow> Inr (if r \<ge> g then ''funded'' else ''active'')))"

text \<open>\<^verbatim>\<open>[...pools.values()].map(p => ({...p, status}))\<close>; the first exception ends it.\<close>

fun with_status :: "host \<Rightarrow> int \<Rightarrow> jsval list \<Rightarrow> js_error + jsval list" where
  "with_status H now [] = Inr []"
| "with_status H now (p # ps) =
     (case pool_status H now p of
        Inl err \<Rightarrow> Inl err
      | Inr s \<Rightarrow>
          (case with_status H now ps of
             Inl err \<Rightarrow> Inl err
           | Inr rest \<Rightarrow> Inr (Obj (setProp (spread_props p) ''status'' (Str s)) # rest)))"

text \<open>The predicate of the filter for pools one can act on (lines 401-413).\<close>

definition is_actionable :: "host \<Rightarrow> int \<Rightarrow> jsval \<Rightarrow> js_error + bool" where
  "is_actionable H now p =
     (case BigInt_of H (getField p ''raised'') of
        Inl err \<Rightarrow> Inl err
      | Inr r \<Rightarrow>
          (case BigInt_of H (getField p ''goal'') of
             Inl err \<Rightarrow> Inl err
           | Inr g \<Rightarrow>
               (let expired = js_gt (Fin (of_int now)) (Number_of H (getField p ''deadline''));
                    funded = (r \<ge> g);
                    fin = truthy (getField p ''finalized'')
                in Inr ((\<not> fin \<and> \<not> expired) \<or> (\<not> fin \<and> expired \<and> r < g) \<or> (\<not> fin \<and> funded)))))"

fun actionable :: "host \<Rightarrow> int \<Rightarrow> jsval list \<Rightarrow> js_error + jsval list" where
  "actionable H now [] = Inr []"
| "actionable H now (p # ps) =
     (case is_actionable H now p of
        Inl err \<Rightarrow> Inl err
      | Inr keep \<Rightarrow>
          (case actionable H now ps of
             Inl err \<Rightarrow> Inl err
           | Inr rest \<Rightarrow> Inr (if keep then p # rest else rest)))"

text \<open>
  The read of \<^verbatim>\<open>GET /api/pools\<close> once the hydration it awaits has returned. \<open>showAll\<close>
  and \<open>retried\<close> are the query flags. An exception is answered with status 500; an empty
  list on a request that is not a retry sends the handler into a second hydration.
\<close>

datatype listing = Listed "jsval list" | Status500 js_error | Second_pass

definition list_pools :: "host \<Rightarrow> int \<Rightarrow> bool \<Rightarrow> bool \<Rightarrow> state \<Rightarrow> listing" where
  "list_pools H now showAll retried st =
     (case with_status H now (map snd (pools st)) of
        Inl err \<Rightarrow> Status500 err
      | Inr list \<Rightarrow>
          if list = [] \<and> \<not> retried then Second_pass
          else (case actionable H now list of
                  Inl err \<Rightarrow> Status500 err
                | Inr act \<Rightarrow> Listed (if showAll then list else act)))"

text \<open>
  \<^verbatim>\<open>POST /api/pools/register\<close>. The first argument of the result is the HTTP status.
\<close>

definition register_id :: "host \<Rightarrow> jsval \<Rightarrow> string" where
  "register_id H pool =
     String_of H (nullish_or (getField pool ''id'')
       (nullish_or (getField pool ''pool_id'') (getField pool ''poolId'')))"

definition registerPool :: "host \<Rightarrow> string \<Rightarrow> jsval \<Rightarrow> state \<Rightarrow> nat \<times> state" where
  "registerPool H savedAt body st =
     (let pool = getField body ''pool'' in
      if \<not> truthy pool then (400, st)
      else
        (let id = register_id H pool
         in if id = [] then (400, st)
            else
              (let normalized = setProps (spread_props pool)
                     [(''id'', Num (Number_str H id)),
                      (''goal'', Str (String_of H (getField pool ''goal''))),
                      (''raised'', Str (String_of H (nullish_or (getField pool ''raised'') (Num (Fin 0))))),
                      (''deadline'', Num (Number_of H (getField pool ''deadline''))),
                      (''finalized'', Bool (truthy (getField pool ''finalized'')))]
               in (200, saveState savedAt
                    (st\<lparr>pools := setProp (pools st) (String_num H (Number_str H id))
                                    (Obj normalized)\<rparr>)))))"

section \<open>The single-flight gate\<close>






section \<open>Which branch handles an event\<close>

text \<open>
  The vocabulary of the properties below, read off \<open>applyEvent\<close>: the key under which
  an event is filed, its normalised tag, and the branch the tag selects. The creation
  test comes first in the source, so a contribution is a tag that passes the second test
  and not the first.
\<close>

definition event_key :: "host \<Rightarrow> event \<Rightarrow> string option" where
  "event_key H e =
     (case extractPoolId H (payload e) (topics e) of
        Some pid \<Rightarrow> Some (String_num H pid)
      | None \<Rightarrow> None)"

definition tag_norm :: "host \<Rightarrow> event \<Rightarrow> string option" where
  "tag_norm H e = (case js_or (event_tag H e) (Str []) of Str t \<Rightarrow> Some (toLowerCase t) | _ \<Rightarrow> None)"

definition is_creation :: "host \<Rightarrow> event \<Rightarrow> bool" where
  "is_creation H e = (case tag_norm H e of Some t \<Rightarrow> is_created_tag t | None \<Rightarrow> False)"





section \<open>Pool-id extraction in the words of the specification\<close>

text \<open>
  The three sources of an id in the order the specification lists them, each read through
  \<^verbatim>\<open>Number\<close> and accepted when the result is finite and positive: the known fields of
  an object payload, the topic at index 1 when it is truthy, every topic in turn.
\<close>

definition id_in_words :: "host \<Rightarrow> jsval \<Rightarrow> topic list \<Rightarrow> jsnum option" where
  "id_in_words H nv ts =
     (let from_fields =
            (if is_object nv
             then List.find finite_pos (map (\<lambda>k. Number_of H (getField nv k)) id_keys)
             else None);
          from_second =
            (if 1 < length ts \<and> ts ! 1 \<noteq> None \<and> finite_pos (Number_of H (decoded (ts ! 1)))
             then Some (Number_of H (decoded (ts ! 1)))
             else None);
          from_any = List.find finite_pos (map (\<lambda>t. Number_of H (decoded t)) ts)
      in if from_fields \<noteq> None then from_fields
         else if from_second \<noteq> None then from_second
         else from_any)"

section \<open>Fixtures\<close>

text \<open>
  A host for the examples: nothing outside the decimal fragment is a number. On the
  strings the examples convert (\<open>ctr\<close>, \<open>soon\<close> and the like) that is what the language
  gives.
\<close>

definition plain_host :: host where
  "plain_host = \<lparr>StringToNumber = (\<lambda>_. NaN), NumberToString = (\<lambda>_. ''?'')\<rparr>"

text \<open>The state of a process that starts without a snapshot file.\<close>

definition fresh :: state where
  "fresh = \<lparr>pools = [], lastScannedLedger = Fin 0, pendingRaised = Map.empty, stateFile = Absent\<rparr>"

text \<open>An event with a string tag, a numeric second topic and a ledger sequence.\<close>

definition tagged :: "string \<Rightarrow> rat \<Rightarrow> jsval \<Rightarrow> rat \<Rightarrow> event" where
  "tagged tag pid nv l =
     \<lparr>payload = nv, topics = [Some (Str tag), Some (Num (Fin pid))],
      ledger = Some (Fin l), ledgerSequence = None\<rparr>"

text \<open>An event from which no pool id can be read.\<close>

definition anonymous :: "string \<Rightarrow> rat \<Rightarrow> event" where
  "anonymous tag l =
     \<lparr>payload = Null, topics = [Some (Str tag)], ledger = Some (Fin l), ledgerSequence = None\<rparr>"

text \<open>Three events for pool 7: two contributions, one of them negative, and the creation.\<close>

definition early :: "event list" where
  "early = [tagged ''ctr'' 7 (Big 600) 3,
            tagged ''Contributed'' 7 (Obj [(''amount'', Big (- 100))]) 4]"

definition creation7 :: event where
  "creation7 = tagged ''PoolCreated'' 7 (Obj [(''goal'', Big 1000), (''deadline'', Big 99)]) 5"

text \<open>Two contributions for pool 7 that cancel.\<close>

definition cancelling :: "event list" where
  "cancelling = [tagged ''ctr'' 7 (Big 5) 3, tagged ''ctr'' 7 (Big (- 5)) 4]"

text \<open>Pool 7 with a goal of 1000, then contributions of 600 and 400.\<close>

definition funded_run :: "event list" where
  "funded_run = [creation7, tagged ''ctr'' 7 (Big 600) 6, tagged ''ctr'' 7 (Big 400) 7]"

text \<open>The state after a list of events, from a fresh process.\<close>

definition after :: "event list \<Rightarrow> state" where
  "after es = fst (fst (apply_events plain_host fresh 0 es))"

text \<open>A registration request for pool 9 that names no goal.\<close>

definition goalless :: jsval where
  "goalless = Obj [(''pool'', Obj [(''id'', Num (Fin 9)), (''deadline'', Num (Fin 99))])]"

text \<open>A creation event whose deadline is not a number.\<close>

definition creation_soon :: event where
  "creation_soon = tagged ''PoolCreated'' 7 (Obj [(''deadline'', Str ''soon'')]) 5"

text \<open>The rejection of the RPC server for a start outside the ledgers it keeps.\<close>

definition out_of_range :: string where
  "out_of_range = ''startLedger must be within the ledger range: 100 - 500''"

text \<open>A process whose cursor stands at ledger 50.\<close>

definition at50 :: state where
  "at50 = fresh\<lparr>lastScannedLedger := Fin 50\<rparr>"

section \<open>Properties\<close>

subsection \<open>Decimal numerals are read back\<close>













subsection \<open>The scan cursor\<close>

lemma on_created_cursor:
  "on_created H st nv pid key = Inr st' \<Longrightarrow> lastScannedLedger st' = lastScannedLedger st"
  by (auto simp: on_created_def Let_def split: option.splits if_splits sum.splits)

lemma on_contributed_cursor:
  "on_contributed H st nv key = Inr st' \<Longrightarrow> lastScannedLedger st' = lastScannedLedger st"
  by (auto simp: on_contributed_def Let_def split: option.splits if_splits sum.splits)

lemma on_finalized_cursor: "lastScannedLedger (on_finalized st key) = lastScannedLedger st"
  by (simp add: on_finalized_def Let_def)

lemma on_other_cursor: "lastScannedLedger (on_other H st nv pid key) = lastScannedLedger st"
  by (simp add: on_other_def Let_def)

lemma dispatch_cursor:
  "dispatch H st nv pid key t = Inr st' \<Longrightarrow> lastScannedLedger st' = lastScannedLedger st"
  by (auto simp: dispatch_def on_finalized_cursor on_other_cursor
      dest: on_created_cursor on_contributed_cursor split: if_splits)

lemma applyEvent_cursor:
  assumes "applyEvent H st e = Applied st'"
  shows "lastScannedLedger st' = Math_max (lastScannedLedger st) (event_ledger e)"
proof -
  from assms obtain pid t st1 where
    d: "dispatch H st (payload e) pid (String_num H pid) (toLowerCase t) = Inr st1"
    and s: "st' = st1\<lparr>lastScannedLedger := Math_max (lastScannedLedger st1) (event_ledger e)\<rparr>"
    by (auto simp: applyEvent_def Let_def split: option.splits jsval.splits sum.splits)
  from dispatch_cursor [OF d] s show ?thesis by simp
qed

lemma Math_max_not_less: "\<not> js_lt (Math_max a b) a"
  by (cases a; cases b) auto

lemma Math_max_chain: "\<not> js_lt b a \<Longrightarrow> \<not> js_lt (Math_max b c) a"
  by (cases a; cases b; cases c) auto

lemma apply_events_cursor:
  "\<not> js_lt (lastScannedLedger st) c \<Longrightarrow>
   \<not> js_lt (lastScannedLedger (fst (fst (apply_events H st n es)))) c"
proof (induction es arbitrary: st n)
  case Nil
  then show ?case by simp
next
  case (Cons e es)
  show ?case
  proof (cases "applyEvent H st e")
    case Skip
    with Cons show ?thesis by simp
  next
    case (Applied st')
    from applyEvent_cursor [OF Applied] Cons.prems
    have "\<not> js_lt (lastScannedLedger st') c" by (simp add: Math_max_chain)
    from Cons.IH [OF this] Applied show ?thesis by simp
  next
    case (Throw err)
    with Cons.prems show ?thesis by simp
  qed
qed

lemma js_lt_irrefl: "\<not> js_lt a a"
  by (cases a) auto


text \<open>
  Claim C4, as the code has it. An event without a pool id leaves the loop turn at
  \<^verbatim>\<open>continue\<close>, before the cursor is touched; an event that is applied moves the cursor
  to the maximum of its value and the ledger of the event; and over any list of events,
  whatever their order, the cursor never ends below where it started.
\<close>

theorem cursor_monotone:
  "(is_Skip (applyEvent H st e) \<longleftrightarrow> extractPoolId H (payload e) (topics e) = None)
   \<and> (applyEvent H st e = Applied st' \<longrightarrow>
        lastScannedLedger st' = Math_max (lastScannedLedger st) (event_ledger e))
   \<and> \<not> js_lt (lastScannedLedger (fst (fst (apply_events H st n es)))) (lastScannedLedger st)"
proof (intro conjI impI)
  show "is_Skip (applyEvent H st e) \<longleftrightarrow> extractPoolId H (payload e) (topics e) = None"
    by (auto simp: applyEvent_def Let_def split: option.splits jsval.splits sum.splits)
next
  assume "applyEvent H st e = Applied st'"
  then show "lastScannedLedger st' = Math_max (lastScannedLedger st) (event_ledger e)"
    by (rule applyEvent_cursor)
next
  show "\<not> js_lt (lastScannedLedger (fst (fst (apply_events H st n es)))) (lastScannedLedger st)"
    by (rule apply_events_cursor) (rule js_lt_irrefl)
qed

theorem cursor_monotone_witness:
  "is_Applied (applyEvent plain_host fresh (tagged ''ctr'' 7 (Big 5) 12))
   \<and> lastScannedLedger (applied_state (applyEvent plain_host fresh (tagged ''ctr'' 7 (Big 5) 12)))
       = Fin 12"
proof -
  let ?e = "tagged ''ctr'' 7 (Big 5) 12"
  let ?r = "applyEvent plain_host fresh ?e"
  have a: "is_Applied ?r"
    by code_simp
  then have "?r = Applied (applied_state ?r)"
    by simp
  with cursor_monotone [of plain_host fresh ?e "applied_state ?r"]
  have "lastScannedLedger (applied_state ?r) = Math_max (lastScannedLedger fresh) (event_ledger ?e)"
    by blast
  moreover have "Math_max (lastScannedLedger fresh) (event_ledger ?e) = Fin 12"
    by (simp add: fresh_def tagged_def event_ledger_def)
  ultimately show ?thesis
    using a by simp
qed

text \<open>
  The claim as it is written fails on an event without a pool id: the cursor stays at
  \<open>0\<close> although the event sits in ledger \<open>10\<close>.
\<close>

theorem cursor_skipped_counterexample:
  "lastScannedLedger (fst (fst (apply_events plain_host fresh 0 [anonymous ''ctr'' 10])))
     \<noteq> Math_max (lastScannedLedger fresh) (event_ledger (anonymous ''ctr'' 10))"
proof -
  have "applyEvent plain_host fresh (anonymous ''ctr'' 10) = Skip"
    by (simp add: applyEvent_def extractPoolId_def anonymous_def is_object_def topic_at1_def
        topic_id_def topicNum_def decoded_def Number_of_def Number_str_def signed_dec_def
        is_digit_def digit_val_def decimal_digits_def plain_host_def Number_isFinite_def)
  then show ?thesis
    by (simp add: fresh_def anonymous_def event_ledger_def)
qed


subsection \<open>The orphan buffer\<close>

lemma map_of_setProp: "map_of (setProp kvs k x) = (map_of kvs)(k \<mapsto> x)"
  by (induction kvs) (auto simp: fun_eq_iff)

lemma map_of_setProps: "map_of (setProps kvs upd) = map_of kvs ++ map_of (rev upd)"
  by (induction upd arbitrary: kvs) (auto simp: map_of_setProp fun_eq_iff map_add_def split: option.splits)


lemma applyEvent_Applied:
  "applyEvent H st e = Applied st' \<longleftrightarrow>
     (\<exists>pid t st1. extractPoolId H (payload e) (topics e) = Some pid \<and> tag_norm H e = Some t
        \<and> dispatch H st (payload e) pid (String_num H pid) t = Inr st1
        \<and> st' = st1\<lparr>lastScannedLedger := Math_max (lastScannedLedger st1) (event_ledger e)\<rparr>)"
  by (auto simp: applyEvent_def tag_norm_def Let_def split: option.splits jsval.splits sum.splits)
















text \<open>
  Claim C3, as the code has it. The creation branch consumes the buffer entry of its key
  only behind the guard \<^verbatim>\<open>buff !== 0n\<close>: a creation event that is applied removes an
  entry whose delta is not zero and leaves an entry whose delta is zero where it is.
\<close>

theorem orphan_entry_consumed:
  assumes "event_key H c = Some k" and "is_creation H c"
    and "pendingRaised st k = Some b" and "applyEvent H st c = Applied st'"
  shows "pendingRaised st' k = (if b = 0 then Some 0 else None)"
proof -
  from assms(4) obtain pid t st1 where
    pid: "extractPoolId H (payload c) (topics c) = Some pid" and t: "tag_norm H c = Some t"
    and d: "dispatch H st (payload c) pid (String_num H pid) t = Inr st1"
    and s: "st' = st1\<lparr>lastScannedLedger := Math_max (lastScannedLedger st1) (event_ledger c)\<rparr>"
    by (auto simp: applyEvent_Applied)
  from pid assms(1) have k: "String_num H pid = k"
    by (simp add: event_key_def)
  from t assms(2) have "is_created_tag t"
    by (simp add: is_creation_def)
  with d k have "on_created H st (payload c) pid k = Inr st1"
    by (simp add: dispatch_def)
  with assms(3) have "pendingRaised st1 k = (if b = 0 then Some 0 else None)"
    by (auto simp: on_created_def Let_def split: if_splits sum.splits)
  with s show ?thesis by simp
qed

theorem orphan_entry_consumed_witness:
  "is_Applied (applyEvent plain_host (fst (fst (apply_events plain_host fresh 0 early))) creation7)
   \<and> pendingRaised (fst (fst (apply_events plain_host fresh 0 early))) ''7'' = Some 500
   \<and> pendingRaised (applied_state
        (applyEvent plain_host (fst (fst (apply_events plain_host fresh 0 early))) creation7)) ''7''
      = None"
proof -
  let ?st = "fst (fst (apply_events plain_host fresh 0 early))"
  let ?r = "applyEvent plain_host ?st creation7"
  have a: "is_Applied ?r"
    by code_simp
  then have h4: "?r = Applied (applied_state ?r)"
    by simp
  have h1: "event_key plain_host creation7 = Some ''7''"
    by code_simp
  have h2: "is_creation plain_host creation7"
    by code_simp
  have h3: "pendingRaised ?st ''7'' = Some 500"
    by code_simp
  from orphan_entry_consumed [OF h1 h2 h3 h4] a h3 show ?thesis
    by simp
qed

text \<open>
  The claim as it is written fails on a zero net delta: after contributions of \<open>+5\<close> and
  \<open>-5\<close> the creation event stores the pool and the entry is still in the buffer.
\<close>

theorem zero_entry_stays_counterexample:
  "map_of (pools (fst (fst (apply_events plain_host fresh 0 (cancelling @ [creation7]))))) ''7''
     \<noteq> None
   \<and> pendingRaised (fst (fst (apply_events plain_host fresh 0 (cancelling @ [creation7])))) ''7''
     = Some 0"
  by code_simp


subsection \<open>Pool-id extraction\<close>

lemma scan_ids_find:
  "scan_ids H nv ks = List.find finite_pos (map (\<lambda>k. Number_of H (getField nv k)) ks)"
  by (induction ks) (simp_all add: Let_def)

lemma topic_id_eq:
  "topic_id H t = (if finite_pos (Number_of H (decoded t)) then Some (Number_of H (decoded t)) else None)"
  by (simp add: topic_id_def topicNum_def Let_def finite_pos_def)

lemma scan_topics_find:
  "scan_topics H ts = List.find finite_pos (map (\<lambda>t. Number_of H (decoded t)) ts)"
  by (induction ts) (simp_all add: topic_id_eq)

lemma topic_at1_nth:
  "topic_at1 ts \<noteq> None \<longleftrightarrow> 1 < length ts \<and> ts ! 1 \<noteq> None"
  "topic_at1 ts \<noteq> None \<Longrightarrow> topic_at1 ts = ts ! 1"
  by (auto simp: topic_at1_def split: list.splits)

lemma extractPoolId_in_words: "extractPoolId H nv ts = id_in_words H nv ts"
proof (cases "topic_at1 ts \<noteq> None")
  case True
  with topic_at1_nth [of ts] have "1 < length ts" "ts ! 1 \<noteq> None" "topic_at1 ts = ts ! 1"
    by auto
  then show ?thesis
    by (auto simp: extractPoolId_def id_in_words_def Let_def scan_ids_find scan_topics_find
        topic_id_eq split: option.splits)
next
  case False
  with topic_at1_nth(1) [of ts] have "\<not> (1 < length ts \<and> ts ! 1 \<noteq> None)"
    by blast
  with False show ?thesis
    by (auto simp: extractPoolId_def id_in_words_def Let_def scan_ids_find scan_topics_find
        split: option.splits)
qed

lemma find_holds: "List.find P xs = Some x \<Longrightarrow> P x"
  by (induction xs) (auto split: if_splits)

lemma id_in_words_pos: "id_in_words H nv ts = Some n \<Longrightarrow> finite_pos n"
  by (auto simp: id_in_words_def Let_def dest: find_holds split: if_splits)

text \<open>
  Claim C7, as the code has it. \<open>extractPoolId\<close> resolves, in order, the first known id
  field of an object payload whose \<^verbatim>\<open>Number\<close> coercion is finite and positive, else the
  topic at index 1 when it is truthy and coerces so, else the first topic that coerces so,
  else nothing. What it resolves is always a finite positive Number. An event without a
  resolved id is skipped: the loop goes on with the next event as if the event were not
  there, with no exception and no change to any state.
\<close>

theorem pool_id_resolution:
  "extractPoolId H nv ts = id_in_words H nv ts
   \<and> (extractPoolId H nv ts = Some n \<longrightarrow> finite_pos n)
   \<and> (extractPoolId H (payload e) (topics e) = None \<longrightarrow>
        applyEvent H st e = Skip \<and> apply_events H st m (e # es) = apply_events H st m es)"
proof (intro conjI impI)
  show "extractPoolId H nv ts = id_in_words H nv ts"
    by (rule extractPoolId_in_words)
next
  assume "extractPoolId H nv ts = Some n"
  then show "finite_pos n"
    by (simp add: extractPoolId_in_words id_in_words_pos)
next
  assume a: "extractPoolId H (payload e) (topics e) = None"
  then show s: "applyEvent H st e = Skip"
    by (simp add: applyEvent_def)
  then show "apply_events H st m (e # es) = apply_events H st m es"
    by simp
qed

theorem pool_id_resolution_witness:
  "extractPoolId plain_host (Obj [(''pool_id'', Str ''12'')]) [] = Some (Fin 12)
   \<and> finite_pos (Fin 12)
   \<and> extractPoolId plain_host (payload (anonymous ''ctr'' 10)) (topics (anonymous ''ctr'' 10)) = None
   \<and> apply_events plain_host fresh 0 (anonymous ''ctr'' 10 # early)
       = apply_events plain_host fresh 0 early"
proof -
  have a: "extractPoolId plain_host (Obj [(''pool_id'', Str ''12'')]) [] = Some (Fin 12)"
    by code_simp
  have b: "extractPoolId plain_host (payload (anonymous ''ctr'' 10)) (topics (anonymous ''ctr'' 10))
      = None"
    by code_simp
  from pool_id_resolution [of plain_host "Obj [(''pool_id'', Str ''12'')]" "[]" "Fin 12"
      "anonymous ''ctr'' 10" fresh 0 early] a b
  show ?thesis by simp
qed

text \<open>
  The claim as it is written fails on a payload whose \<open>id\<close> is the boolean \<open>true\<close> and
  whose \<open>pool\<close> is \<open>5\<close>: \<^verbatim>\<open>Number(true)\<close> is \<open>1\<close>, so the id resolved is \<open>1\<close>, from a value
  that is not a positive integer, and not the \<open>5\<close> of the first field that is one.
\<close>

theorem pool_id_from_boolean_counterexample:
  "extractPoolId plain_host (Obj [(''id'', Bool True), (''pool'', Num (Fin 5))]) [] = Some (Fin 1)"
  by (simp add: extractPoolId_def is_object_def id_keys_def getField_def Number_of_def
      finite_pos_def Number_isFinite_def js_gt_def)


subsection \<open>Derived status\<close>

text \<open>
  Claim C8. A pool whose \<open>finalized\<close> is true has status \<open>finalized\<close>. A pool that is not
  finalized and whose deadline is before \<open>now\<close> has status \<open>expired\<close> (whatever it
  raised). A pool that is not finalized, whose deadline is not before \<open>now\<close> and whose
  \<open>raised\<close> is at least its \<open>goal\<close> has status \<open>funded\<close>.
\<close>

theorem derived_status:
  "(truthy (getField p ''finalized'') \<longrightarrow> pool_status H now p = Inr ''finalized'')
   \<and> (\<not> truthy (getField p ''finalized'')
        \<and> js_gt (Fin (of_int now)) (Number_of H (getField p ''deadline''))
        \<longrightarrow> pool_status H now p = Inr ''expired'')
   \<and> (\<not> truthy (getField p ''finalized'')
        \<and> \<not> js_gt (Fin (of_int now)) (Number_of H (getField p ''deadline''))
        \<and> BigInt_of H (getField p ''raised'') = Inr r
        \<and> BigInt_of H (getField p ''goal'') = Inr g \<and> g \<le> r
        \<longrightarrow> pool_status H now p = Inr ''funded'')"
  by (simp add: pool_status_def)

text \<open>
  The example of the specification: goal 1000, contributions of 600 and 400, deadline 99
  and the clock at 50 give \<open>funded\<close>; the same pool without contributions and the clock
  at 100 gives \<open>expired\<close>; after a finalize event it gives \<open>finalized\<close>.
\<close>

theorem derived_status_witness:
  "pool_status plain_host 50 (pools_get (after funded_run) ''7'') = Inr ''funded''
   \<and> pool_status plain_host 100 (pools_get (after [creation7]) ''7'') = Inr ''expired''
   \<and> pool_status plain_host 50 (pools_get (after [creation7, tagged ''fn'' 7 Null 8]) ''7'')
       = Inr ''finalized''"
proof -
  let ?a = "pools_get (after funded_run) ''7''"
  let ?b = "pools_get (after [creation7]) ''7''"
  let ?c = "pools_get (after [creation7, tagged ''fn'' 7 Null 8]) ''7''"
  have a: "\<not> truthy (getField ?a ''finalized'')"
    "\<not> js_gt (Fin (of_int 50)) (Number_of plain_host (getField ?a ''deadline''))"
    "BigInt_of plain_host (getField ?a ''raised'') = Inr 1000"
    "BigInt_of plain_host (getField ?a ''goal'') = Inr 1000"
    by code_simp+
  have b: "\<not> truthy (getField ?b ''finalized'')"
    "js_gt (Fin (of_int 100)) (Number_of plain_host (getField ?b ''deadline''))"
    by code_simp+
  have c: "truthy (getField ?c ''finalized'')"
    by code_simp
  from derived_status [of ?a plain_host 50 1000 1000] a
  have "pool_status plain_host 50 ?a = Inr ''funded''" by simp
  moreover from derived_status [of ?b plain_host 100] b
  have "pool_status plain_host 100 ?b = Inr ''expired''" by simp
  moreover from derived_status [of ?c plain_host 50] c
  have "pool_status plain_host 50 ?c = Inr ''finalized''" by simp
  ultimately show ?thesis by simp
qed

subsection \<open>Registration without a goal\<close>

lemma BigInt_str_undefined: "BigInt_str ''undefined'' = Inl SyntaxError"
  by code_simp

lemma with_status_keeps_goal:
  "with_status H now ps = Inr list \<Longrightarrow> p \<in> set ps \<Longrightarrow> getField p ''goal'' = Str g
   \<Longrightarrow> \<exists>q \<in> set list. getField q ''goal'' = Str g"
proof (induction ps arbitrary: list)
  case Nil
  then show ?case by simp
next
  case (Cons a ps)
  from Cons.prems(1) obtain s rest where
    s: "pool_status H now a = Inr s" and r: "with_status H now ps = Inr rest"
    and l: "list = Obj (setProp (spread_props a) ''status'' (Str s)) # rest"
    by (auto split: sum.splits)
  show ?case
  proof (cases "p = a")
    case True
    with Cons.prems(3) have "getField (Obj (setProp (spread_props a) ''status'' (Str s))) ''goal'' = Str g"
      by (auto simp: getField_def spread_props_def map_of_setProp split: jsval.splits option.splits)
    with l show ?thesis by auto
  next
    case False
    with Cons.prems have "p \<in> set ps" by simp
    from Cons.IH [OF r this Cons.prems(3)] l show ?thesis by auto
  qed
qed

lemma actionable_fails:
  "q \<in> set list \<Longrightarrow> getField q ''goal'' = Str ''undefined'' \<Longrightarrow> \<exists>err. actionable H now list = Inl err"
proof (induction list)
  case Nil
  then show ?case by simp
next
  case (Cons a list)
  show ?case
  proof (cases "q = a")
    case True
    with Cons.prems(2) have "\<exists>err. is_actionable H now a = Inl err"
      by (auto simp: is_actionable_def BigInt_of_def BigInt_str_undefined split: sum.splits)
    then show ?thesis by auto
  next
    case False
    with Cons.prems have "q \<in> set list" by simp
    from Cons.IH [OF this Cons.prems(2)] show ?thesis
      by (auto split: sum.splits)
  qed
qed

lemma listing_fails:
  assumes "(k, p) \<in> set (pools st)" and "getField p ''goal'' = Str ''undefined''"
  shows "\<exists>err. list_pools H now showAll retried st = Status500 err"
proof (cases "with_status H now (map snd (pools st))")
  case (Inl err)
  then show ?thesis by (simp add: list_pools_def)
next
  case (Inr list)
  from assms(1) have "p \<in> set (map snd (pools st))" by force
  from with_status_keeps_goal [OF Inr this assms(2)]
  obtain q where q: "q \<in> set list" "getField q ''goal'' = Str ''undefined''" by blast
  then have "list \<noteq> []" by auto
  with actionable_fails [OF q, of H now] Inr show ?thesis
    by (auto simp: list_pools_def)
qed

lemma pools_saveState: "pools (saveState t st) = pools st"
  by (simp add: saveState_def split: sum.splits)

text \<open>
  Claim C9. A registration whose pool record is truthy, has an id that prints as a
  non-empty string and has no \<open>goal\<close> is answered with 200 and stores the pool with the
  goal \<open>undefined\<close>, a string. From then on the read of the pool list fails with status
  500, whatever the clock and the query flags, and so does the read of any later state
  that still holds a pool with that goal.
\<close>

theorem register_without_goal:
  assumes "truthy (getField body ''pool'')"
    and "getField (getField body ''pool'') ''goal'' = Undef"
    and "register_id H (getField body ''pool'') \<noteq> []"
  shows "fst (registerPool H savedAt body st) = 200
     \<and> (\<exists>p. map_of (pools (snd (registerPool H savedAt body st)))
               (String_num H (Number_str H (register_id H (getField body ''pool'')))) = Some p
            \<and> getField p ''goal'' = Str ''undefined'')
     \<and> (\<exists>err. list_pools H now showAll retried (snd (registerPool H savedAt body st))
            = Status500 err)
     \<and> ((k, q) \<in> set (pools st2) \<and> getField q ''goal'' = Str ''undefined''
          \<longrightarrow> (\<exists>err. list_pools H now showAll retried st2 = Status500 err))"
proof -
  let ?pool = "getField body ''pool''"
  let ?key = "String_num H (Number_str H (register_id H ?pool))"
  let ?st' = "snd (registerPool H savedAt body st)"
  from assms have status: "fst (registerPool H savedAt body st) = 200"
    by (simp add: registerPool_def Let_def)
  from assms obtain p where p: "map_of (pools ?st') ?key = Some p"
    and g: "getField p ''goal'' = Str ''undefined''"
    by (simp add: registerPool_def Let_def pools_saveState map_of_setProp getField_def)
  from p have "(?key, p) \<in> set (pools ?st')"
    by (rule map_of_SomeD)
  from listing_fails [OF this g]
  have "\<exists>err. list_pools H now showAll retried ?st' = Status500 err" .
  with status p g show ?thesis
    by (auto dest: listing_fails)
qed

theorem register_without_goal_witness:
  "fst (registerPool plain_host ''t'' goalless fresh) = 200
   \<and> (\<exists>p. map_of (pools (snd (registerPool plain_host ''t'' goalless fresh))) ''9'' = Some p
          \<and> getField p ''goal'' = Str ''undefined'')
   \<and> (''9'', pools_get (snd (registerPool plain_host ''t'' goalless fresh)) ''9'')
        \<in> set (pools (snd (registerPool plain_host ''t'' goalless fresh)))
   \<and> (\<exists>err. list_pools plain_host 50 True False (snd (registerPool plain_host ''t'' goalless fresh))
          = Status500 err)"
proof -
  let ?st' = "snd (registerPool plain_host ''t'' goalless fresh)"
  have h1: "truthy (getField goalless ''pool'')"
    by code_simp
  have h2: "getField (getField goalless ''pool'') ''goal'' = Undef"
    by code_simp
  have h3: "register_id plain_host (getField goalless ''pool'') \<noteq> []"
    by code_simp
  have k: "String_num plain_host (Number_str plain_host (register_id plain_host
      (getField goalless ''pool''))) = ''9''"
    by code_simp
  have h4: "(''9'', pools_get ?st' ''9'') \<in> set (pools ?st')"
    "getField (pools_get ?st' ''9'') ''goal'' = Str ''undefined''"
    by code_simp+
  from register_without_goal [OF h1 h2 h3, where savedAt = "''t''" and st = fresh and now = 50
      and showAll = True and retried = False and k = "''9''" and q = "pools_get ?st' ''9''"
      and ?st2.0 = ?st'] h4
  show ?thesis
    by (simp only: k)
qed


subsection \<open>The snapshot\<close>

lemma jsonify_elems_stable:
  "\<forall>p \<in> set ps. jsonify p = Inr p \<and> p \<noteq> Undef \<Longrightarrow> jsonify_elems ps = Inr ps"
  by (induction ps) auto

lemma setProp_fresh: "k \<notin> fst ` set acc \<Longrightarrow> setProp acc k x = acc @ [(k, x)]"
  by (induction acc) auto

lemma load_pools_keyed:
  assumes "\<forall>(k, p) \<in> set ps. \<not> nullish p \<and> k = String_of H (getField p ''id'')"
    and "distinct (map fst ps)" and "fst ` set ps \<inter> fst ` set acc = {}"
  shows "load_pools H acc (map snd ps) = (acc @ ps, True)"
  using assms
proof (induction ps arbitrary: acc)
  case Nil
  then show ?case by simp
next
  case (Cons a ps)
  obtain k p where a: "a = (k, p)" by (cases a)
  with Cons.prems have n: "\<not> nullish p" and k: "k = String_of H (getField p ''id'')"
    and f: "k \<notin> fst ` set acc" and d: "k \<notin> fst ` set ps"
    by auto
  from f have s: "setProp acc k p = acc @ [(k, p)]" by (rule setProp_fresh)
  have "load_pools H (acc @ [(k, p)]) (map snd ps) = ((acc @ [(k, p)]) @ ps, True)"
  proof (rule Cons.IH)
    show "\<forall>(k, p) \<in> set ps. \<not> nullish p \<and> k = String_of H (getField p ''id'')"
      using Cons.prems(1) by simp
    show "distinct (map fst ps)" using Cons.prems(2) by simp
    show "fst ` set ps \<inter> fst ` set (acc @ [(k, p)]) = {}"
      using Cons.prems(3) d a by auto
  qed
  with a n k s show ?case by simp
qed

text \<open>
  Claim C6, as the code has it. Take a registry in which every pool is a value that JSON
  writes and reads back unchanged (no BigInt, no undefined, no NaN or infinity inside) and
  is filed under the string of its own \<open>id\<close>, and a cursor that is finite and not
  negative. Then \<open>saveState\<close> followed by \<open>loadState\<close> in a new process gives the same
  pools, in the same order, and the same cursor.
\<close>

theorem snapshot_round_trip:
  assumes "\<forall>(k, p) \<in> set (pools st). jsonify p = Inr p \<and> \<not> nullish p
              \<and> k = String_of H (getField p ''id'')"
    and "distinct (map fst (pools st))"
    and "lastScannedLedger st = Fin c" and "0 \<le> c"
  shows "pools (loadState H (restart (saveState savedAt st))) = pools st
     \<and> lastScannedLedger (loadState H (restart (saveState savedAt st))) = lastScannedLedger st"
proof -
  from assms(1) have "\<forall>p \<in> set (map snd (pools st)). jsonify p = Inr p \<and> p \<noteq> Undef"
    by (auto simp: nullish_def)
  then have e: "jsonify_elems (map snd (pools st)) = Inr (map snd (pools st))"
    by (rule jsonify_elems_stable)
  let ?doc = "Obj [(''lastScannedLedger'', Num (Fin c)), (''pools'', Arr (map snd (pools st))),
                   (''savedAt'', Str savedAt)]"
  from e assms(3) have f: "stateFile (saveState savedAt st) = Doc ?doc"
    by (simp add: saveState_def Number_isFinite_def)
  from assms(1) have "\<forall>(k, p) \<in> set (pools st). \<not> nullish p \<and> k = String_of H (getField p ''id'')"
    by auto
  from load_pools_keyed [OF this assms(2), of "[]"]
  have l: "load_pools H [] (map snd (pools st)) = (pools st, True)" by simp
  have m: "Math_max (Fin 0) (Number_of H (js_or (Num (Fin c)) (Num (Fin 0)))) = Fin c"
    using assms(4) by (auto simp: js_or_def truthy_def num_truthy_def Number_of_def)
  from f l m assms(3) show ?thesis
    by (simp add: loadState_def restart_def Let_def nullish_def getField_def js_or_def truthy_def
        iterate_def)
qed

theorem snapshot_round_trip_witness:
  "pools (loadState plain_host (restart (saveState ''t'' (after funded_run))))
     = pools (after funded_run)
   \<and> lastScannedLedger (loadState plain_host (restart (saveState ''t'' (after funded_run))))
     = Fin 7"
proof -
  have h1: "\<forall>(k, p) \<in> set (pools (after funded_run)). jsonify p = Inr p \<and> \<not> nullish p
      \<and> k = String_of plain_host (getField p ''id'')"
    by code_simp
  have h2: "distinct (map fst (pools (after funded_run)))"
    by code_simp
  have h3: "lastScannedLedger (after funded_run) = Fin 7"
    by code_simp
  have h4: "(0::rat) \<le> 7"
    by simp
  from snapshot_round_trip [OF h1 h2 h3 h4, of "''t''"] h3 show ?thesis
    by simp
qed

text \<open>
  The claim as it is written fails on a pool whose deadline is NaN, which a creation
  event with a deadline that is not a number stores: JSON writes NaN as \<^verbatim>\<open>null\<close>, and
  the pool that comes back is not the pool that was saved.
\<close>

theorem snapshot_nan_counterexample:
  "pools (loadState plain_host (restart (saveState ''t'' (after [creation_soon]))))
     \<noteq> pools (after [creation_soon])"
  by code_simp


subsection \<open>Failed fetches\<close>

lemma page_loop_rejected:
  "\<exists>ending. page_loop H tip st start token n (Rejected msg # rest) made
      = (ending, st, n, made @ [(start, token)]) \<and> (ending = Condition_false \<or> ending = Broken)"
  by (simp add: loop_body_def token_truthy_def split: verdict.splits)





text \<open>
  Claim C5 at its own example. With the cursor at 50 the first fetch starts at 50; the
  server refuses it with the range 100 to 500 and the catch computes the start 100, as
  the claim says. But \<^verbatim>\<open>continue retryFetch\<close> goes to the condition of the
  \<^verbatim>\<open>do ... while\<close>, the token has just been set to undefined, and the loop ends: the
  pass has made the one fetch at 50, although the server had a page ready for the next.
  The same holds after every rejection: the fetch that failed is the last of the pass.
\<close>

theorem adjusted_start_never_fetched:
  "negotiate (Fin 200000) (Fin 50) out_of_range = Adjusted (Fin 100)
   \<and> snd (snd (run_pass plain_host ''t'' None at50 (Some (Fin 200000))
                 [Rejected out_of_range, Page [] None]))
      = [(Fin 50, None)]
   \<and> (\<exists>ending. page_loop H tip st start token n (Rejected msg # rest) made
                 = (ending, st, n, made @ [(start, token)]))"
proof (intro conjI)
  show "negotiate (Fin 200000) (Fin 50) out_of_range = Adjusted (Fin 100)"
    by code_simp
  show "snd (snd (run_pass plain_host ''t'' None at50 (Some (Fin 200000))
                    [Rejected out_of_range, Page [] None]))
      = [(Fin 50, None)]"
    by code_simp
  show "\<exists>ending. page_loop H tip st start token n (Rejected msg # rest) made
                 = (ending, st, n, made @ [(start, token)])"
    using page_loop_rejected [of H tip st start token n msg rest made] by blast
qed


subsection \<open>Single flight\<close>






end
